theory Spec2Isabelle
  imports Complex_Main
begin

section \<open>Python strings\<close>

text \<open>
  A Python \<open>str\<close> is modelled as a \<open>string\<close> whose characters are the code points
  below 256. On that range \<open>str.isdigit\<close> holds for \<open>0\<close>..\<open>9\<close> and for the superscript
  digits U+00B2, U+00B3 and U+00B9; \<open>str.isspace\<close> holds for the code points 9..13,
  28..32, 133 and 160; the pattern \<open>\d\<close> of \<open>re\<close> matches \<open>0\<close>..\<open>9\<close> only.
\<close>

definition isdigit_char :: "char \<Rightarrow> bool" where
  "isdigit_char c =
     (let n = (of_char c :: nat)
      in (48 \<le> n \<and> n \<le> 57) \<or> n = 178 \<or> n = 179 \<or> n = 185)"

definition isspace_char :: "char \<Rightarrow> bool" where
  "isspace_char c =
     (let n = (of_char c :: nat)
      in (9 \<le> n \<and> n \<le> 13) \<or> (28 \<le> n \<and> n \<le> 32) \<or> n = 133 \<or> n = 160)"

definition decimal_char :: "char \<Rightarrow> bool" where
  "decimal_char c = (let n = (of_char c :: nat) in 48 \<le> n \<and> n \<le> 57)"

definition isdigit :: "string \<Rightarrow> bool" where
  "isdigit s = (s \<noteq> [] \<and> list_all isdigit_char s)"

definition strip_chars :: "(char \<Rightarrow> bool) \<Rightarrow> string \<Rightarrow> string" where
  "strip_chars P s = rev (dropWhile P (rev (dropWhile P s)))"

definition strip :: "string \<Rightarrow> string" where
  "strip s = strip_chars isspace_char s"

text \<open>
  \<open>str.lower\<close> on the code points below 256: \<open>A\<close>..\<open>Z\<close> and the capital letters
  U+00C0..U+00DE (but not the multiplication sign U+00D7) move up by 32.
\<close>

definition lower_char :: "char \<Rightarrow> char" where
  "lower_char c =
     (let n = (of_char c :: nat)
      in if (65 \<le> n \<and> n \<le> 90) \<or> (192 \<le> n \<and> n \<le> 222 \<and> n \<noteq> 215)
         then char_of (n + 32) else c)"

definition lower :: "string \<Rightarrow> string" where
  "lower s = map lower_char s"

definition digit_char :: "nat \<Rightarrow> char" where
  "digit_char n = char_of (48 + n)"

fun show_nat :: "nat \<Rightarrow> string" where
  "show_nat n = (if n < 10 then [digit_char n] else show_nat (n div 10) @ [digit_char (n mod 10)])"

declare show_nat.simps [simp del]

definition show_int :: "int \<Rightarrow> string" where
  "show_int i = (if i < 0 then CHR ''-'' # show_nat (nat (- i)) else show_nat (nat i))"

section \<open>The conversion worker\<close>

text \<open>
  \<open>FFmpegWorker\<close> holds the input path, the output path and the saturation. Both
  applications create it with \<open>slider.value() / 100.0\<close>, so the saturation is kept as the
  slider's integer \<open>v\<close>, standing for the float \<open>v / 100.0\<close> (the slider's range is
  0..150). \<open>str_saturation\<close> is the text Python prints for that float on the slider's
  range: the shortest decimal that reads back as the same double.
\<close>

record worker =
  input_path :: string
  output_path :: string
  saturation :: int

text \<open>
  The exceptions that the modelled code can raise, and the text of an error signal:
  either a string the code builds, or \<open>str(e)\<close> of a caught exception.
\<close>

datatype py_error = ValueError | OverflowError | ZeroDivisionError

datatype message = Text string | Str_of py_error

text \<open>
  The signals of a worker. The Windows worker has \<open>progress\<close>, \<open>done\<close> (with the
  output path) and \<open>error\<close>; the bundled worker has \<open>progress_changed\<close>,
  \<open>finished_ok\<close> (without argument) and \<open>error_occurred\<close>.
\<close>

datatype signal = Progress int | Done string | Finished_ok | Error message

fun terminal :: "signal \<Rightarrow> bool" where
  "terminal (Progress p) = False"
| "terminal (Done out) = True"
| "terminal Finished_ok = True"
| "terminal (Error m) = True"

definition str_saturation :: "int \<Rightarrow> string" where
  "str_saturation v =
     (let a = nat \<bar>v\<bar>; fr = a mod 100
      in (if v < 0 then ''-'' else '''') @ show_nat (a div 100) @ ''.'' @
         (if fr mod 10 = 0 then [digit_char (fr div 10)]
          else [digit_char (fr div 10), digit_char (fr mod 10)]))"

definition vf_filter :: "int \<Rightarrow> string" where
  "vf_filter v =
     (let vf = ''eq=saturation='' @ str_saturation v
      in if v \<le> 0 then vf @ '',format=yuv420p'' else vf)"

subsection \<open>Bitrate probing and the encoder command\<close>

text \<open>
  The bundled variant keeps the stripped prober output only when it is not empty and
  \<open>isdigit()\<close>; otherwise \<open>orig_bitrate\<close> is \<open>None\<close>. The command then tests the
  truth value of \<open>orig_bitrate\<close>.
\<close>

definition bundled_orig_bitrate :: "string \<Rightarrow> string option" where
  "bundled_orig_bitrate stdout =
     (let orig_bitrate = strip stdout
      in if orig_bitrate = [] \<or> \<not> isdigit orig_bitrate then None else Some orig_bitrate)"

definition bundled_cmd :: "string \<Rightarrow> worker \<Rightarrow> string option \<Rightarrow> string list" where
  "bundled_cmd ffmpeg w orig_bitrate =
     [ffmpeg, ''-y'', ''-i'', input_path w, ''-vf'', vf_filter (saturation w),
      ''-c:v'', ''libx264''] @
     (case orig_bitrate of
        None \<Rightarrow> [''-b:v'', ''12M'']
      | Some b \<Rightarrow> if b \<noteq> [] then [''-b:v'', b] else [''-b:v'', ''12M'']) @
     [''-maxrate'', ''12M'', ''-bufsize'', ''24M'', ''-c:a'', ''copy'', output_path w]"

text \<open>The Windows variant: \<open>bitrate = p.stdout.strip() or "12M"\<close>.\<close>

definition windows_bitrate :: "string \<Rightarrow> string" where
  "windows_bitrate stdout = (let b = strip stdout in if b \<noteq> [] then b else ''12M'')"

definition windows_cmd :: "string \<Rightarrow> worker \<Rightarrow> string \<Rightarrow> string list" where
  "windows_cmd ffmpeg w bitrate =
     [ffmpeg, ''-y'', ''-i'', input_path w, ''-vf'', vf_filter (saturation w),
      ''-b:v'', bitrate, ''-c:a'', ''copy'', output_path w]"

text \<open>
  The spec's "well-formed positive integer": a non-empty run of the digits \<open>0\<close>..\<open>9\<close> that
  is not all zeros.
\<close>

definition positive_integer :: "string \<Rightarrow> bool" where
  "positive_integer s = (s \<noteq> [] \<and> list_all decimal_char s \<and> \<not> list_all (\<lambda>c. c = CHR ''0'') s)"

section \<open>Python floats\<close>

text \<open>
  A Python \<open>float\<close> is an IEEE 754 double: a finite value is kept as the rational it
  denotes, next to the two infinities and not-a-number. The sign of zero, which no
  operation of this program can observe, is not kept. \<open>round_double\<close> rounds a rational
  to the nearest double, ties to the even significand: the result is \<open>m * 2 ^ q\<close> for
  the integer \<open>m\<close> nearest to \<open>x / 2 ^ q\<close>, where \<open>q\<close> leaves 53 bits and is at least
  \<open>-1074\<close> (gradual underflow), and it is an infinity when \<open>m * 2 ^ q\<close> has more than
  1024 bits before the point, that is from \<open>2 ^ 1024\<close> on. Every arithmetic operation on
  finite values is the exact operation followed by this rounding.
\<close>

datatype pyfloat = Finite rat | PInf | NInf | NaN

text \<open>The number of binary digits of a positive integer.\<close>

function bitlen :: "int \<Rightarrow> int" where
  "bitlen n = (if n \<le> 0 then 0 else 1 + bitlen (n div 2))"
  by auto
termination
  by (relation "measure nat") auto

declare bitlen.simps [simp del]

definition pow2 :: "int \<Rightarrow> rat" where
  "pow2 k = (if k \<ge> 0 then 2 ^ nat k else 1 / 2 ^ nat (- k))"

text \<open>For \<open>x > 0\<close>, the integer \<open>e\<close> with \<open>2 ^ e \<le> x < 2 ^ (e + 1)\<close>.\<close>

definition floor_log2 :: "rat \<Rightarrow> int" where
  "floor_log2 x =
     (let (n, d) = quotient_of x;
          k = bitlen n - bitlen d
      in if pow2 k \<le> x then k else k - 1)"

definition round_half_even :: "rat \<Rightarrow> int" where
  "round_half_even x =
     (let f = \<lfloor>x\<rfloor>; r = x - of_int f
      in if r < 1 / 2 then f else if r > 1 / 2 then f + 1 else if even f then f else f + 1)"

definition round_double :: "rat \<Rightarrow> pyfloat" where
  "round_double x =
     (if x = 0 then Finite 0
      else (let a = \<bar>x\<bar>;
                q = max (floor_log2 a - 52) (- 1074);
                m = round_half_even (a / pow2 q)
            in if bitlen m + q > 1024 then (if x > 0 then PInf else NInf)
               else Finite (if x > 0 then of_int m * pow2 q else - (of_int m * pow2 q))))"

fun fsgn :: "pyfloat \<Rightarrow> int" where
  "fsgn (Finite a) = (if a > 0 then 1 else if a < 0 then - 1 else 0)"
| "fsgn PInf = 1"
| "fsgn NInf = - 1"
| "fsgn NaN = 0"

fun fless :: "pyfloat \<Rightarrow> pyfloat \<Rightarrow> bool" where
  "fless (Finite a) (Finite b) = (a < b)"
| "fless NaN y = False"
| "fless x NaN = False"
| "fless x NInf = False"
| "fless NInf y = True"
| "fless PInf y = False"
| "fless x PInf = True"

fun fadd :: "pyfloat \<Rightarrow> pyfloat \<Rightarrow> pyfloat" where
  "fadd (Finite a) (Finite b) = round_double (a + b)"
| "fadd NaN y = NaN"
| "fadd x NaN = NaN"
| "fadd PInf NInf = NaN"
| "fadd NInf PInf = NaN"
| "fadd PInf y = PInf"
| "fadd NInf y = NInf"
| "fadd x PInf = PInf"
| "fadd x NInf = NInf"

fun fmul :: "pyfloat \<Rightarrow> pyfloat \<Rightarrow> pyfloat" where
  "fmul (Finite a) (Finite b) = round_double (a * b)"
| "fmul NaN y = NaN"
| "fmul x NaN = NaN"
| "fmul x y =
     (if fsgn x * fsgn y = 0 then NaN else if fsgn x * fsgn y > 0 then PInf else NInf)"

text \<open>Division raises \<open>ZeroDivisionError\<close> on a zero divisor.\<close>

fun fdiv :: "pyfloat \<Rightarrow> pyfloat \<Rightarrow> py_error + pyfloat" where
  "fdiv x (Finite b) =
     (if b = 0 then Inl ZeroDivisionError
      else (case x of
              Finite a \<Rightarrow> Inr (round_double (a / b))
            | NaN \<Rightarrow> Inr NaN
            | PInf \<Rightarrow> Inr (if b > 0 then PInf else NInf)
            | NInf \<Rightarrow> Inr (if b > 0 then NInf else PInf)))"
| "fdiv NaN y = Inr NaN"
| "fdiv x NaN = Inr NaN"
| "fdiv (Finite a) y = Inr (Finite 0)"
| "fdiv x y = Inr NaN"

text \<open>
  \<open>float(i)\<close> for an integer, as the mixed operations \<open>int + float\<close> and \<open>float * int\<close>
  apply it: \<open>OverflowError\<close> when the integer is beyond the doubles.
\<close>

definition float_of_int :: "int \<Rightarrow> py_error + pyfloat" where
  "float_of_int i =
     (case round_double (of_int i) of
        Finite y \<Rightarrow> Inr (Finite y)
      | PInf \<Rightarrow> Inl OverflowError
      | NInf \<Rightarrow> Inl OverflowError
      | NaN \<Rightarrow> Inl OverflowError)"

text \<open>\<open>int(x)\<close> truncates towards zero and raises on infinities and not-a-number.\<close>

definition int_of_float :: "pyfloat \<Rightarrow> py_error + int" where
  "int_of_float x =
     (case x of
        Finite a \<Rightarrow> Inr (if a \<ge> 0 then \<lfloor>a\<rfloor> else \<lceil>a\<rceil>)
      | PInf \<Rightarrow> Inl OverflowError
      | NInf \<Rightarrow> Inl OverflowError
      | NaN \<Rightarrow> Inl ValueError)"


subsection \<open>Reading numbers\<close>

definition int_of_digits :: "string \<Rightarrow> int" where
  "int_of_digits ds = foldl (\<lambda>a c. 10 * a + (of_char c - 48)) 0 ds"

definition pow10 :: "int \<Rightarrow> rat" where
  "pow10 k = (if k \<ge> 0 then 10 ^ nat k else 1 / 10 ^ nat (- k))"

text \<open>
  The whitespace that \<open>float\<close> drops around its argument: the code points 9..13, 32,
  133 and 160 (not 28..31, which \<open>str.strip\<close> drops).
\<close>

definition float_space_char :: "char \<Rightarrow> bool" where
  "float_space_char c =
     (let n = (of_char c :: nat) in (9 \<le> n \<and> n \<le> 13) \<or> n = 32 \<or> n = 133 \<or> n = 160)"

text \<open>
  \<open>float(s)\<close> for a string. Surrounding whitespace is dropped; an underscore must stand
  between two digits and is then dropped; what remains is an optional sign followed by
  \<open>inf\<close>, \<open>infinity\<close> or \<open>nan\<close> in any case, or by digits with an optional point and an
  optional exponent, with at least one digit before the exponent. Anything else raises
  \<open>ValueError\<close>. The value is the decimal's, rounded to the nearest double.
\<close>

fun underscores_ok :: "char \<Rightarrow> string \<Rightarrow> bool" where
  "underscores_ok prev [] = (prev \<noteq> CHR ''_'')"
| "underscores_ok prev (c # cs) =
     (if c = CHR ''_'' then decimal_char prev \<and> underscores_ok c cs
      else (if prev = CHR ''_'' then decimal_char c \<and> underscores_ok c cs
            else underscores_ok c cs))"

definition split_sign :: "string \<Rightarrow> bool \<times> string" where
  "split_sign s =
     (case s of
        [] \<Rightarrow> (False, [])
      | c # cs \<Rightarrow> if c = CHR ''-'' then (True, cs) else if c = CHR ''+'' then (False, cs)
                  else (False, s))"

definition parse_decimal :: "string \<Rightarrow> rat option" where
  "parse_decimal s =
     (let ip = takeWhile decimal_char s; r1 = dropWhile decimal_char s;
          (fp, r2) = (case r1 of
                        [] \<Rightarrow> ([], [])
                      | c # cs \<Rightarrow> if c = CHR ''.''
                                  then (takeWhile decimal_char cs, dropWhile decimal_char cs)
                                  else ([], r1))
      in if ip @ fp = [] then None
         else (case r2 of
                 [] \<Rightarrow> Some (of_int (int_of_digits (ip @ fp)) * pow10 (- int (length fp)))
               | c # cs \<Rightarrow>
                   if c = CHR ''e'' \<or> c = CHR ''E''
                   then (let (neg, ds) = split_sign cs
                         in if ds \<noteq> [] \<and> list_all decimal_char ds
                            then Some (of_int (int_of_digits (ip @ fp)) *
                                       pow10 ((if neg then - int_of_digits ds
                                               else int_of_digits ds)
                                              - int (length fp)))
                            else None)
                   else None))"

definition py_float :: "string \<Rightarrow> py_error + pyfloat" where
  "py_float s =
     (let t = strip_chars float_space_char s
      in if \<not> underscores_ok (CHR 0x00) t then Inl ValueError
         else (let (neg, body) = split_sign (filter (\<lambda>c. c \<noteq> CHR ''_'') t);
                   word = lower body
               in if word = ''inf'' \<or> word = ''infinity'' then Inr (if neg then NInf else PInf)
                  else if word = ''nan'' then Inr NaN
                  else (case parse_decimal body of
                          None \<Rightarrow> Inl ValueError
                        | Some v \<Rightarrow> Inr (round_double (if neg then - v else v)))))"

section \<open>Probing the duration and tracking progress\<close>

text \<open>
  The bundled variant reads the duration with \<open>float\<close> when the stripped output is not
  empty, outside any \<open>try\<close> of its own; the Windows variant reads it inside
  \<open>try\<close>/\<open>except\<close> and takes 0.0 on any exception.
\<close>

definition bundled_duration :: "string \<Rightarrow> py_error + pyfloat" where
  "bundled_duration stdout =
     (if strip stdout \<noteq> [] then py_float (strip stdout) else Inr (Finite 0))"

definition windows_duration :: "string \<Rightarrow> pyfloat" where
  "windows_duration stdout =
     (case py_float (strip stdout) of Inl e \<Rightarrow> Finite 0 | Inr d \<Rightarrow> d)"

text \<open>
  The pattern \<open>time=(\d+):(\d+):(\d+\.\d+)\<close>. Each \<open>\d+\<close> is followed by a character
  that is not a digit, so the longest run of digits is the only candidate at a position;
  \<open>search\<close> takes the leftmost position at which the pattern matches. The result is
  the three groups.
\<close>

definition digits_then :: "char \<Rightarrow> string \<Rightarrow> (string \<times> string) option" where
  "digits_then sep s =
     (case dropWhile decimal_char s of
        [] \<Rightarrow> None
      | c # cs \<Rightarrow> if takeWhile decimal_char s \<noteq> [] \<and> c = sep
                  then Some (takeWhile decimal_char s, cs) else None)"

definition match_time :: "string \<Rightarrow> (string \<times> string \<times> string) option" where
  "match_time s =
     (if take 5 s = ''time=''
      then (case digits_then (CHR '':'') (drop 5 s) of
              None \<Rightarrow> None
            | Some (g1, r1) \<Rightarrow>
                (case digits_then (CHR '':'') r1 of
                   None \<Rightarrow> None
                 | Some (g2, r2) \<Rightarrow>
                     (case digits_then (CHR ''.'') r2 of
                        None \<Rightarrow> None
                      | Some (ip, r3) \<Rightarrow>
                          if takeWhile decimal_char r3 = [] then None
                          else Some (g1, g2, ip @ ''.'' @ takeWhile decimal_char r3))))
      else None)"

fun search_time :: "string \<Rightarrow> (string \<times> string \<times> string) option" where
  "search_time [] = None"
| "search_time (c # cs) =
     (case match_time (c # cs) of Some g \<Rightarrow> Some g | None \<Rightarrow> search_time cs)"

text \<open>
  \<open>t = h * 3600 + mm * 60 + s\<close> with \<open>h\<close> and \<open>mm\<close> integers and \<open>s\<close> a float: the integer
  sum is converted to a float and added. (The bound that recent interpreters put on the
  length of a digit string given to \<open>int\<close> is not modelled; such a string is beyond the
  doubles anyway unless it is mostly leading zeros.)
\<close>

definition elapsed :: "string \<times> string \<times> string \<Rightarrow> py_error + pyfloat" where
  "elapsed g =
     (case g of (g1, g2, g3) \<Rightarrow>
        (case py_float g3 of
           Inl e \<Rightarrow> Inl e
         | Inr s \<Rightarrow>
             (case float_of_int (int_of_digits g1 * 3600 + int_of_digits g2 * 60) of
                Inl e \<Rightarrow> Inl e
              | Inr hm \<Rightarrow> Inr (fadd hm s))))"

text \<open>\<open>(t / duration) * 100\<close>.\<close>

definition ratio100 :: "pyfloat \<Rightarrow> pyfloat \<Rightarrow> py_error + pyfloat" where
  "ratio100 t duration =
     (case fdiv t duration of Inl e \<Rightarrow> Inl e | Inr r \<Rightarrow> Inr (fmul r (Finite 100)))"

text \<open>
  The bundled variant: \<open>int(min(100, (t / duration) * 100))\<close>, where \<open>min(100, v)\<close> is
  \<open>v\<close> when \<open>v < 100\<close> and the integer 100 otherwise.
\<close>

definition bundled_pct :: "pyfloat \<Rightarrow> string \<times> string \<times> string \<Rightarrow> py_error + int" where
  "bundled_pct duration g =
     (case elapsed g of
        Inl e \<Rightarrow> Inl e
      | Inr t \<Rightarrow>
          (case ratio100 t duration of
             Inl e \<Rightarrow> Inl e
           | Inr v \<Rightarrow> if fless v (Finite 100) then int_of_float v else Inr 100))"

text \<open>The Windows variant: \<open>max(0, min(100, int((t / duration) * 100)))\<close>.\<close>

definition windows_pct :: "pyfloat \<Rightarrow> string \<times> string \<times> string \<Rightarrow> py_error + int" where
  "windows_pct duration g =
     (case elapsed g of
        Inl e \<Rightarrow> Inl e
      | Inr t \<Rightarrow>
          (case ratio100 t duration of
             Inl e \<Rightarrow> Inl e
           | Inr v \<Rightarrow>
               (case int_of_float v of
                  Inl e \<Rightarrow> Inl e
                | Inr i \<Rightarrow> Inr (max 0 (min 100 i)))))"

text \<open>
  The loop over the lines of the encoder's diagnostic stream, the same in both variants
  but for the percent \<open>pct\<close>: the result is the list of the percents emitted and the
  exception that ended the loop, if any. \<open>last_pct\<close> is the loop's variable \<open>last\<close>.
\<close>

fun progress_loop ::
    "(pyfloat \<Rightarrow> string \<times> string \<times> string \<Rightarrow> py_error + int) \<Rightarrow> pyfloat \<Rightarrow> int \<Rightarrow> string list
      \<Rightarrow> int list \<times> py_error option" where
  "progress_loop pct duration last_pct [] = ([], None)"
| "progress_loop pct duration last_pct (L # Ls) =
     (case search_time L of
        None \<Rightarrow> progress_loop pct duration last_pct Ls
      | Some g \<Rightarrow>
          if fless (Finite 0) duration
          then (case pct duration g of
                  Inl e \<Rightarrow> ([], Some e)
                | Inr p \<Rightarrow>
                    if p \<noteq> last_pct
                    then (case progress_loop pct duration p Ls of (em, r) \<Rightarrow> (p # em, r))
                    else progress_loop pct duration last_pct Ls)
          else progress_loop pct duration last_pct Ls)"


subsection \<open>The run of a worker\<close>

text \<open>
  What the external programs give a run: the prober's output for the duration and for
  the bitrate, the lines of the encoder's diagnostic stream and its exit status. The
  result is the command built (none when the run ended before) and the signals emitted,
  in order.
\<close>

record process_io =
  duration_out :: string
  bitrate_out :: string
  stderr_lines :: "string list"
  returncode :: int

definition bundled_run :: "string \<Rightarrow> worker \<Rightarrow> process_io \<Rightarrow> string list option \<times> signal list" where
  "bundled_run ffmpeg w io =
     (case bundled_duration (duration_out io) of
        Inl e \<Rightarrow> (None, [Error (Str_of e)])
      | Inr duration \<Rightarrow>
          (let cmd = bundled_cmd ffmpeg w (bundled_orig_bitrate (bitrate_out io))
           in (case progress_loop bundled_pct duration (- 1) (stderr_lines io) of
                 (em, Some e) \<Rightarrow> (Some cmd, map Progress em @ [Error (Str_of e)])
               | (em, None) \<Rightarrow>
                   if returncode io = 0 then (Some cmd, map Progress em @ [Finished_ok])
                   else (Some cmd, map Progress em @
                           [Error (Text (''ffmpeg rc='' @ show_int (returncode io)))]))))"

definition windows_run :: "string \<Rightarrow> worker \<Rightarrow> process_io \<Rightarrow> string list option \<times> signal list" where
  "windows_run ffmpeg w io =
     (let cmd = windows_cmd ffmpeg w (windows_bitrate (bitrate_out io));
          duration = windows_duration (duration_out io)
      in (case progress_loop windows_pct duration (- 1) (stderr_lines io) of
            (em, Some e) \<Rightarrow> (Some cmd, map Progress em @ [Error (Str_of e)])
          | (em, None) \<Rightarrow>
              if returncode io = 0
              then (Some cmd, map Progress em @ [Progress 100, Done (output_path w)])
              else (Some cmd, map Progress em @
                      [Error (Text (''FFmpeg failed (exit code '' @ show_int (returncode io)
                                     @ '')''))])))"

section \<open>The working set of files\<close>

definition endswith :: "string \<Rightarrow> string \<Rightarrow> bool" where
  "endswith s suf = (length suf \<le> length s \<and> drop (length s - length suf) s = suf)"

definition video_ext :: "string \<Rightarrow> bool" where
  "video_ext f = list_ex (endswith (lower f)) [''.mp4'', ''.mov'', ''.mkv'', ''.avi'', ''.webm'']"

subsection \<open>The bundled variant (\<open>VideoColorConverterApp\<close>)\<close>

text \<open>
  The state keeps the fields the file operations and the start of a batch touch:
  the file list, the list widget's rows, the output folder, the saturation slider,
  the message boxes shown so far and the workers started so far.
\<close>

record bundled_app =
  input_files :: "string list"
  list_widget :: "string list"
  output_folder :: string
  sat_slider :: int
  message_boxes :: "string list"
  started :: "worker list"

text \<open>
  \<open>add_files\<close>: \<open>files\<close> is what the file dialog returned. The loop stops with a
  message box at the first file met while the list holds 20 entries.
\<close>

fun bundled_add_loop :: "string list \<Rightarrow> bundled_app \<Rightarrow> bundled_app" where
  "bundled_add_loop [] a = a"
| "bundled_add_loop (f # fs) a =
     (if length (input_files a) \<ge> 20
      then a\<lparr>message_boxes := message_boxes a @ [''You can only add up to 20 files.'']\<rparr>
      else if f \<notin> set (input_files a)
      then bundled_add_loop fs
             (a\<lparr>input_files := input_files a @ [f], list_widget := list_widget a @ [f]\<rparr>)
      else bundled_add_loop fs a)"

definition bundled_add_files :: "string list \<Rightarrow> bundled_app \<Rightarrow> bundled_app" where
  "bundled_add_files files a = (if files = [] then a else bundled_add_loop files a)"

text \<open>\<open>dropEvent\<close>: \<open>urls\<close> are the dropped local file names.\<close>

fun bundled_dropEvent :: "string list \<Rightarrow> bundled_app \<Rightarrow> bundled_app" where
  "bundled_dropEvent [] a = a"
| "bundled_dropEvent (f # us) a =
     (if video_ext f \<and> f \<notin> set (input_files a)
      then (if length (input_files a) < 20
            then bundled_dropEvent us
                   (a\<lparr>input_files := input_files a @ [f], list_widget := list_widget a @ [f]\<rparr>)
            else bundled_dropEvent us a)
      else bundled_dropEvent us a)"

text \<open>
  \<open>remove_selected\<close>: \<open>sel\<close> are the texts of the selected rows; \<open>list.remove\<close> and
  \<open>takeItem\<close> each take one occurrence away.
\<close>

fun bundled_remove_selected :: "string list \<Rightarrow> bundled_app \<Rightarrow> bundled_app" where
  "bundled_remove_selected [] a = a"
| "bundled_remove_selected (txt # sel) a =
     bundled_remove_selected sel
       (a\<lparr>input_files := (if txt \<in> set (input_files a) then remove1 txt (input_files a)
                            else input_files a),
          list_widget := remove1 txt (list_widget a)\<rparr>)"

subsection \<open>The Windows variant (\<open>App\<close>)\<close>

text \<open>
  The state: the file list, the list widget's rows, the output directory, the
  saturation slider, the queue of the running batch, the workers created so far
  (\<open>workers\<close>), the workers
  that were started and have not yet delivered their terminal signal (\<open>running\<close>, which
  stands for the live threads), the count of finished conversions, the value of the
  progress bar, whether the four
  buttons are enabled, and the message boxes and batch-complete notices shown so far.
  The selected row of the list and the timer of the preview, which the file operations
  also touch, are not part of it.
\<close>

datatype notice = Warning string | Critical message | Completed

record app =
  files :: "string list"
  list_rows :: "string list"
  output_dir :: string
  s_slider :: int
  queue :: "string list"
  workers :: "worker list"
  running :: "worker list"
  done_count :: nat
  progress_bar :: int
  buttons_enabled :: bool
  notices :: "notice list"

fun add_loop :: "string list \<Rightarrow> app \<Rightarrow> app" where
  "add_loop [] a = a"
| "add_loop (f # fs) a =
     (if f \<notin> set (files a)
      then add_loop fs (a\<lparr>files := files a @ [f], list_rows := list_rows a @ [f]\<rparr>)
      else add_loop fs a)"

definition add_files :: "string list \<Rightarrow> app \<Rightarrow> app" where
  "add_files fs a = (if fs = [] then a else add_loop fs a)"

fun dropEvent :: "string list \<Rightarrow> app \<Rightarrow> app" where
  "dropEvent [] a = a"
| "dropEvent (f # us) a =
     (if video_ext f \<and> f \<notin> set (files a)
      then dropEvent us (a\<lparr>files := files a @ [f], list_rows := list_rows a @ [f]\<rparr>)
      else dropEvent us a)"

fun remove_selected :: "string list \<Rightarrow> app \<Rightarrow> app" where
  "remove_selected [] a = a"
| "remove_selected (txt # sel) a =
     remove_selected sel
       (a\<lparr>files := (if txt \<in> set (files a) then remove1 txt (files a) else files a),
          list_rows := remove1 txt (list_rows a)\<rparr>)"

section \<open>Starting and running a batch\<close>

text \<open>
  The output name \<open>str(Path(dir) / (Path(f).stem + "_converted.mp4"))\<close> is computed
  by \<open>pathlib\<close>; it is the parameter \<open>outp\<close> of the functions below, applied to the
  output directory and the input file.
\<close>

subsection \<open>The bundled variant: all workers at once\<close>

definition bundled_start_conversion ::
    "(string \<Rightarrow> string \<Rightarrow> string) \<Rightarrow> bundled_app \<Rightarrow> bundled_app" where
  "bundled_start_conversion outp a =
     (if input_files a = [] \<or> output_folder a = []
      then a\<lparr>message_boxes := message_boxes a @ [''Add files and select output folder'']\<rparr>
      else a\<lparr>started := started a @
                 map (\<lambda>f. \<lparr>input_path = f, output_path = outp (output_folder a) f,
                           saturation = sat_slider a\<rparr>)
                     (input_files a)\<rparr>)"

text \<open>The file operations of the bundled window, as events.\<close>

datatype file_op = Add_files "string list" | Drop "string list" | Remove_selected "string list"

fun bundled_file_op :: "file_op \<Rightarrow> bundled_app \<Rightarrow> bundled_app" where
  "bundled_file_op (Add_files fs) a = bundled_add_files fs a"
| "bundled_file_op (Drop us) a = bundled_dropEvent us a"
| "bundled_file_op (Remove_selected sel) a = bundled_remove_selected sel a"

subsection \<open>The Windows variant: one worker after the other\<close>

definition run_next :: "(string \<Rightarrow> string \<Rightarrow> string) \<Rightarrow> app \<Rightarrow> app" where
  "run_next outp a =
     (case queue a of
        [] \<Rightarrow> a\<lparr>buttons_enabled := True, notices := notices a @ [Completed]\<rparr>
      | f # q \<Rightarrow>
          (let w = \<lparr>input_path = f, output_path = outp (output_dir a) f,
                    saturation = s_slider a\<rparr>
           in a\<lparr>queue := q, workers := workers a @ [w], running := running a @ [w]\<rparr>))"

definition start_queue :: "(string \<Rightarrow> string \<Rightarrow> string) \<Rightarrow> app \<Rightarrow> app" where
  "start_queue outp a =
     (if files a = [] \<or> output_dir a = []
      then a\<lparr>notices := notices a @ [Warning ''Add files + select output folder'']\<rparr>
      else run_next outp
             (a\<lparr>queue := files a, progress_bar := 0, done_count := 0,
                buttons_enabled := False\<rparr>))"

definition worker_done :: "(string \<Rightarrow> string \<Rightarrow> string) \<Rightarrow> string \<Rightarrow> app \<Rightarrow> app" where
  "worker_done outp out a = run_next outp (a\<lparr>done_count := done_count a + 1\<rparr>)"

definition worker_error :: "(string \<Rightarrow> string \<Rightarrow> string) \<Rightarrow> message \<Rightarrow> app \<Rightarrow> app" where
  "worker_error outp msg a = run_next outp (a\<lparr>notices := notices a @ [Critical msg]\<rparr>)"

text \<open>
  What the window can receive while a batch runs: a file operation, a move of the
  slider, or a signal of a worker. A signal needs a worker that is running (a worker
  sends nothing after its terminal signal); the sender is the oldest running worker,
  and its terminal signal ends it. The result is \<open>None\<close> for a signal that no worker
  can have sent.
\<close>

datatype event = File file_op | Slider int | Signal signal

fun do_file_op :: "file_op \<Rightarrow> app \<Rightarrow> app" where
  "do_file_op (Add_files fs) a = add_files fs a"
| "do_file_op (Drop us) a = dropEvent us a"
| "do_file_op (Remove_selected sel) a = remove_selected sel a"

fun on_signal :: "(string \<Rightarrow> string \<Rightarrow> string) \<Rightarrow> signal \<Rightarrow> app \<Rightarrow> app" where
  "on_signal outp (Progress p) a = a\<lparr>progress_bar := p\<rparr>"
| "on_signal outp (Done out) a = worker_done outp out (a\<lparr>running := tl (running a)\<rparr>)"
| "on_signal outp (Error msg) a = worker_error outp msg (a\<lparr>running := tl (running a)\<rparr>)"
| "on_signal outp Finished_ok a = a"

fun step :: "(string \<Rightarrow> string \<Rightarrow> string) \<Rightarrow> event \<Rightarrow> app \<Rightarrow> app option" where
  "step outp (File fo) a = Some (do_file_op fo a)"
| "step outp (Slider v) a = Some (a\<lparr>s_slider := v\<rparr>)"
| "step outp (Signal sg) a =
     (if running a = [] \<or> sg = Finished_ok then None else Some (on_signal outp sg a))"

fun steps :: "(string \<Rightarrow> string \<Rightarrow> string) \<Rightarrow> event list \<Rightarrow> app \<Rightarrow> app option" where
  "steps outp [] a = Some a"
| "steps outp (ev # es) a =
     (case step outp ev a of None \<Rightarrow> None | Some a' \<Rightarrow> steps outp es a')"

text \<open>The number of terminal signals in a list of events.\<close>

fun terminals :: "event list \<Rightarrow> nat" where
  "terminals [] = 0"
| "terminals (Signal sg # es) = (if terminal sg then Suc (terminals es) else terminals es)"
| "terminals (ev # es) = terminals es"

text \<open>The error messages of the error signals in a list of events, in order.\<close>

fun errors :: "event list \<Rightarrow> notice list" where
  "errors [] = []"
| "errors (Signal (Error msg) # es) = Critical msg # errors es"
| "errors (ev # es) = errors es"

text \<open>
  The state of a running batch over the snapshot \<open>F\<close> of the file list, after \<open>k\<close>
  terminal signals: \<open>W\<close> are the inputs of the workers created before the batch and
  \<open>N\<close> the notices shown before its completion.
\<close>

definition batch_inv :: "string list \<Rightarrow> string list \<Rightarrow> notice list \<Rightarrow> nat \<Rightarrow> app \<Rightarrow> bool" where
  "batch_inv F W N k a =
     (k \<le> length F \<and>
      map input_path (workers a) = W @ take (Suc k) F \<and>
      queue a = drop (Suc k) F \<and>
      map input_path (running a) = (if k < length F then [F ! k] else []) \<and>
      notices a = N @ (if k = length F then [Completed] else []))"

text \<open>
  For the concrete cases: the output name that \<open>pathlib\<close> gives for a directory name
  without a trailing separator and a plain file name with one dot, and a window with
  three files and the output directory \<open>out\<close>.
\<close>

definition out_name :: "string \<Rightarrow> string \<Rightarrow> string" where
  "out_name d f = d @ ''/'' @ takeWhile (\<lambda>c. c \<noteq> CHR ''.'') f @ ''_converted.mp4''"

definition app_three :: app where
  "app_three =
     \<lparr>files = [''a.mp4'', ''b.mp4'', ''c.mp4''], list_rows = [''a.mp4'', ''b.mp4'', ''c.mp4''],
      output_dir = ''out'', s_slider = 100, queue = [], workers = [], running = [],
      done_count = 0, progress_bar = 0, buttons_enabled = True, notices = []\<rparr>"

definition bundled_two :: bundled_app where
  "bundled_two =
     \<lparr>input_files = [''a.mp4'', ''b.mp4''], list_widget = [''a.mp4'', ''b.mp4''],
      output_folder = ''out'', sat_slider = 100, message_boxes = [], started = []\<rparr>"

section \<open>The preview\<close>

text \<open>
  \<open>Previewer.run\<close> works on what the platform provides: the MD5 digest in hexadecimal,
  \<open>Path.resolve().as_posix()\<close> (\<open>None\<close> when it raises), the path of a file name in the
  temporary directory, the encoder found by \<open>find_tool\<close>, and the run of the encoder
  under \<open>subprocess.run\<close> with its timeout, which takes the command and the sizes of the
  files on disk and gives whether it raised (timeout, no such program) and the sizes
  afterwards.
\<close>

record platform =
  md5_hexdigest :: "string \<Rightarrow> string"
  resolve_posix :: "string \<Rightarrow> string option"
  temp_path :: "string \<Rightarrow> string"
  ffmpeg_tool :: string
  run_ffmpeg :: "string list \<Rightarrow> (string \<rightharpoonup> nat) \<Rightarrow> bool \<times> (string \<rightharpoonup> nat)"

record previewer =
  video_path :: string
  preview_saturation :: int

text \<open>The disk and the encoder commands run so far.\<close>

record disk =
  sizes :: "string \<rightharpoonup> nat"
  invocations :: "string list list"

text \<open>
  \<open>f"{saturation:.3f}"\<close> for the float \<open>v / 100.0\<close> of the slider value \<open>v\<close>, on the
  slider's range: three decimals, the third being 0.
\<close>

definition format_3f :: "int \<Rightarrow> string" where
  "format_3f v =
     (let a = nat \<bar>v\<bar>; fr = a mod 100
      in (if v < 0 then ''-'' else '''') @ show_nat (a div 100) @ ''.'' @
         [digit_char (fr div 10), digit_char (fr mod 10), CHR ''0''])"

definition cache_key :: "string \<Rightarrow> int \<Rightarrow> string" where
  "cache_key resolved v = resolved @ ''|'' @ format_3f v"

definition outjpg :: "platform \<Rightarrow> string \<Rightarrow> int \<Rightarrow> string" where
  "outjpg P resolved v =
     temp_path P (''preview_'' @ md5_hexdigest P (cache_key resolved v) @ ''.jpg'')"

definition preview_cmd :: "platform \<Rightarrow> previewer \<Rightarrow> string \<Rightarrow> string list" where
  "preview_cmd P pv out =
     [ffmpeg_tool P, ''-y'', ''-ss'', ''00:00:01'', ''-i'', video_path pv,
      ''-frames:v'', ''1'', ''-vf'', vf_filter (preview_saturation pv), out]"

text \<open>
  The run gives the argument of the \<open>ready\<close> signal (the path of the picture, or the
  empty string) and the disk afterwards.
\<close>

definition Previewer_run :: "platform \<Rightarrow> previewer \<Rightarrow> disk \<Rightarrow> string \<times> disk" where
  "Previewer_run P pv d =
     (case resolve_posix P (video_path pv) of
        None \<Rightarrow> ('''', d)
      | Some resolved \<Rightarrow>
          (let out = outjpg P resolved (preview_saturation pv);
               cmd = preview_cmd P pv out;
               (raised, sizes') = run_ffmpeg P cmd (sizes d);
               d' = \<lparr>sizes = sizes', invocations = invocations d @ [cmd]\<rparr>
           in if raised then ('''', d')
              else (case sizes' out of
                      None \<Rightarrow> ('''', d')
                    | Some n \<Rightarrow> if n > 500 then (out, d') else ('''', d'))))"

text \<open>
  For the concrete case: a platform on which paths resolve to themselves, the temporary
  directory is \<open>/tmp\<close>, the digest is known for the one key used, and the encoder writes
  a picture of 1000 bytes to the last word of its command; and a disk that already holds
  the picture of \<open>/videos/a.mp4\<close> at saturation 1.0.
\<close>

definition platform_one :: platform where
  "platform_one =
     \<lparr>md5_hexdigest = (\<lambda>k. if k = ''/videos/a.mp4|1.000''
                              then ''294ce4e15b2436c9654e3349f9b4e99d'' else []),
      resolve_posix = Some,
      temp_path = (\<lambda>n. ''/tmp/'' @ n),
      ffmpeg_tool = ''ffmpeg.exe'',
      run_ffmpeg = (\<lambda>cmd fs. (False, fs(last cmd \<mapsto> 1000)))\<rparr>"

definition disk_cached :: disk where
  "disk_cached =
     \<lparr>sizes = [''/tmp/preview_294ce4e15b2436c9654e3349f9b4e99d.jpg'' \<mapsto> 1000],
      invocations = []\<rparr>"

text \<open>Twenty file names, \<open>0.mp4\<close> .. \<open>19.mp4\<close>, for the concrete cases below.\<close>

definition twenty_files :: "string list" where
  "twenty_files = map (\<lambda>n. show_nat n @ ''.mp4'') [0..<20]"

definition bundled_full :: bundled_app where
  "bundled_full =
     \<lparr>input_files = twenty_files, list_widget = twenty_files, output_folder = ''out'',
      sat_slider = 100, message_boxes = [], started = []\<rparr>"

definition app_full :: app where
  "app_full =
     \<lparr>files = twenty_files, list_rows = twenty_files, output_dir = ''out'', s_slider = 100,
      queue = [], workers = [], running = [], done_count = 0,
      progress_bar = 0, buttons_enabled = True, notices = []\<rparr>"

section \<open>Properties\<close>

lemma decimal_isdigit_char: "decimal_char c \<Longrightarrow> isdigit_char c"
  by (simp add: decimal_char_def isdigit_char_def Let_def)

text \<open>
  C6 (as amended). In the bundled variant, for every tool path, worker (input, output,
  saturation) and prober output, the encoder command carries \<open>-maxrate 12M -bufsize 24M\<close>
  right after the two-word target-bitrate option, whatever bitrate was chosen.
\<close>

theorem bundled_cmd_rate_ceiling:
  "take 4 (drop 10 (bundled_cmd ffmpeg w (bundled_orig_bitrate stdout)))
     = [''-maxrate'', ''12M'', ''-bufsize'', ''24M'']"
  by (simp add: bundled_cmd_def split: option.split)

text \<open>
  C6, counterexample. The Windows variant's command for the input \<open>a.mp4\<close>, saturation
  1.0 and prober output \<open>800000\<close> has neither \<open>-maxrate\<close> nor \<open>-bufsize\<close>.
\<close>

theorem windows_cmd_no_rate_ceiling:
  "''-maxrate'' \<notin> set (windows_cmd ''ffmpeg.exe''
       \<lparr>input_path = ''a.mp4'', output_path = ''a_converted.mp4'', saturation = 100\<rparr>
       (windows_bitrate ''800000'')) \<and>
   ''-bufsize'' \<notin> set (windows_cmd ''ffmpeg.exe''
       \<lparr>input_path = ''a.mp4'', output_path = ''a_converted.mp4'', saturation = 100\<rparr>
       (windows_bitrate ''800000''))"
  by code_simp

text \<open>
  C6, witness: the bundled command for a concrete worker and prober output.
\<close>

theorem bundled_cmd_rate_ceiling_witness:
  "take 4 (drop 10 (bundled_cmd ''ffmpeg''
       \<lparr>input_path = ''a.mp4'', output_path = ''a_converted.mp4'', saturation = 100\<rparr>
       (bundled_orig_bitrate ''800000'')))
     = [''-maxrate'', ''12M'', ''-bufsize'', ''24M'']"
  by (rule bundled_cmd_rate_ceiling)

lemma positive_integer_isdigit: "positive_integer s \<Longrightarrow> isdigit s"
  by (simp add: positive_integer_def isdigit_def list_all_iff decimal_isdigit_char)

lemma isdigit_nonempty: "isdigit s \<Longrightarrow> s \<noteq> []"
  by (simp add: isdigit_def)

text \<open>
  C1 (as amended). For every prober output, tool path and worker: when the stripped
  output is a well-formed positive integer, and more generally whenever it is a non-empty
  run of digits in the sense of \<open>str.isdigit\<close>, both variants pass it unchanged as the
  value of \<open>-b:v\<close>; when the stripped output is empty, both variants pass \<open>12M\<close>; in the
  bundled variant every output that is not such a run of digits gives \<open>12M\<close>.
\<close>

theorem target_bitrate_policy:
  "(positive_integer (strip out) \<longrightarrow>
      take 2 (drop 8 (bundled_cmd ffmpeg w (bundled_orig_bitrate out))) = [''-b:v'', strip out] \<and>
      take 2 (drop 6 (windows_cmd ffmpeg w (windows_bitrate out))) = [''-b:v'', strip out]) \<and>
   (isdigit (strip out) \<longrightarrow>
      take 2 (drop 8 (bundled_cmd ffmpeg w (bundled_orig_bitrate out))) = [''-b:v'', strip out] \<and>
      take 2 (drop 6 (windows_cmd ffmpeg w (windows_bitrate out))) = [''-b:v'', strip out]) \<and>
   (strip out = [] \<longrightarrow>
      take 2 (drop 8 (bundled_cmd ffmpeg w (bundled_orig_bitrate out))) = [''-b:v'', ''12M''] \<and>
      take 2 (drop 6 (windows_cmd ffmpeg w (windows_bitrate out))) = [''-b:v'', ''12M'']) \<and>
   (\<not> isdigit (strip out) \<longrightarrow>
      take 2 (drop 8 (bundled_cmd ffmpeg w (bundled_orig_bitrate out))) = [''-b:v'', ''12M''])"
proof -
  have verbatim:
    "take 2 (drop 8 (bundled_cmd ffmpeg w (bundled_orig_bitrate out))) = [''-b:v'', strip out] \<and>
     take 2 (drop 6 (windows_cmd ffmpeg w (windows_bitrate out))) = [''-b:v'', strip out]"
    if "isdigit (strip out)"
    using that isdigit_nonempty [OF that]
    by (simp add: bundled_cmd_def bundled_orig_bitrate_def windows_cmd_def windows_bitrate_def)
  have empty:
    "take 2 (drop 8 (bundled_cmd ffmpeg w (bundled_orig_bitrate out))) = [''-b:v'', ''12M''] \<and>
     take 2 (drop 6 (windows_cmd ffmpeg w (windows_bitrate out))) = [''-b:v'', ''12M'']"
    if "strip out = []"
    using that
    by (simp add: bundled_cmd_def bundled_orig_bitrate_def windows_cmd_def windows_bitrate_def)
  have fallback:
    "take 2 (drop 8 (bundled_cmd ffmpeg w (bundled_orig_bitrate out))) = [''-b:v'', ''12M'']"
    if "\<not> isdigit (strip out)"
    using that by (simp add: bundled_cmd_def bundled_orig_bitrate_def)
  from verbatim empty fallback positive_integer_isdigit show ?thesis
    by blast
qed

text \<open>
  C1, witness: the prober outputs \<open>800000\<close> (used unchanged by both variants), the empty
  output (both variants fall back) and \<open>N/A\<close> (the bundled variant falls back).
\<close>

theorem target_bitrate_policy_witness:
  "positive_integer (strip (''800000'' @ [CHR 0x0A])) \<and>
   isdigit (strip (''800000'' @ [CHR 0x0A])) \<and>
   take 2 (drop 8 (bundled_cmd ''ffmpeg''
       \<lparr>input_path = ''a.mp4'', output_path = ''b.mp4'', saturation = 100\<rparr>
       (bundled_orig_bitrate (''800000'' @ [CHR 0x0A])))) = [''-b:v'', ''800000''] \<and>
   take 2 (drop 6 (windows_cmd ''ffmpeg''
       \<lparr>input_path = ''a.mp4'', output_path = ''b.mp4'', saturation = 100\<rparr>
       (windows_bitrate (''800000'' @ [CHR 0x0A])))) = [''-b:v'', ''800000''] \<and>
   strip [] = [] \<and>
   take 2 (drop 8 (bundled_cmd ''ffmpeg''
       \<lparr>input_path = ''a.mp4'', output_path = ''b.mp4'', saturation = 100\<rparr>
       (bundled_orig_bitrate []))) = [''-b:v'', ''12M''] \<and>
   take 2 (drop 6 (windows_cmd ''ffmpeg''
       \<lparr>input_path = ''a.mp4'', output_path = ''b.mp4'', saturation = 100\<rparr>
       (windows_bitrate []))) = [''-b:v'', ''12M''] \<and>
   \<not> isdigit (strip (''N/A'' @ [CHR 0x0A])) \<and>
   take 2 (drop 8 (bundled_cmd ''ffmpeg''
       \<lparr>input_path = ''a.mp4'', output_path = ''b.mp4'', saturation = 100\<rparr>
       (bundled_orig_bitrate (''N/A'' @ [CHR 0x0A])))) = [''-b:v'', ''12M'']"
proof -
  let ?w = "\<lparr>input_path = ''a.mp4'', output_path = ''b.mp4'', saturation = 100\<rparr>"
  have s1: "strip (''800000'' @ [CHR 0x0A]) = ''800000''"
    by (simp add: strip_def strip_chars_def isspace_char_def)
  have p1: "positive_integer ''800000''"
    by (simp add: positive_integer_def decimal_char_def)
  have s2: "strip [] = []"
    by (simp add: strip_def strip_chars_def)
  have s3: "strip (''N/A'' @ [CHR 0x0A]) = ''N/A''"
    by (simp add: strip_def strip_chars_def isspace_char_def)
  have p3: "\<not> isdigit ''N/A''"
    by (simp add: isdigit_def isdigit_char_def)
  show ?thesis
    using target_bitrate_policy [of "''800000'' @ [CHR 0x0A]" "''ffmpeg''" ?w]
      target_bitrate_policy [of "[]" "''ffmpeg''" ?w]
      target_bitrate_policy [of "''N/A'' @ [CHR 0x0A]" "''ffmpeg''" ?w]
      positive_integer_isdigit [OF p1]
    unfolding s1 s2 s3 using p1 p3 by simp
qed

text \<open>
  C1, counterexample. The prober output \<open>0\<close> is not a positive integer, yet the bundled
  variant passes it as the target bitrate instead of \<open>12M\<close>.
\<close>

theorem zero_bitrate_not_replaced:
  "\<not> positive_integer (strip (''0'' @ [CHR 0x0A])) \<and>
   take 2 (drop 8 (bundled_cmd ''ffmpeg''
       \<lparr>input_path = ''a.mp4'', output_path = ''b.mp4'', saturation = 100\<rparr>
       (bundled_orig_bitrate (''0'' @ [CHR 0x0A])))) = [''-b:v'', ''0'']"
  by (simp add: positive_integer_def strip_def strip_chars_def isspace_char_def bundled_cmd_def
      bundled_orig_bitrate_def isdigit_def isdigit_char_def)

subsection \<open>The cap of twenty files\<close>

lemma bundled_add_loop_full:
  "length (input_files a) \<ge> 20 \<Longrightarrow> input_files (bundled_add_loop fs a) = input_files a"
  by (cases fs) auto

lemma bundled_add_loop_full_message:
  "length (input_files a) \<ge> 20 \<Longrightarrow> fs \<noteq> [] \<Longrightarrow>
   message_boxes (bundled_add_loop fs a) = message_boxes a @ [''You can only add up to 20 files.'']"
  by (cases fs) auto

lemma bundled_dropEvent_full:
  "length (input_files a) \<ge> 20 \<Longrightarrow> input_files (bundled_dropEvent us a) = input_files a"
  by (induction us arbitrary: a) auto

lemma bundled_add_loop_cap:
  "length (input_files a) \<le> 20 \<Longrightarrow> length (input_files (bundled_add_loop fs a)) \<le> 20"
  by (induction fs arbitrary: a) auto

lemma bundled_dropEvent_cap:
  "length (input_files a) \<le> 20 \<Longrightarrow> length (input_files (bundled_dropEvent us a)) \<le> 20"
  by (induction us arbitrary: a) auto

lemma twenty_files_length: "length twenty_files = 20"
  by (simp add: twenty_files_def)

text \<open>
  C5 (as amended). In the bundled variant, for every working set that holds 20 files,
  the explicit add (whatever the dialog returned) and the drop (whatever was dropped)
  leave the file list as it was, and an explicit add of at least one file shows the
  limit message; a list of at most 20 files has at most 20 after either operation.
\<close>

theorem bundled_cap_twenty:
  "(length (input_files a) = 20 \<longrightarrow>
      input_files (bundled_add_files fs a) = input_files a \<and>
      input_files (bundled_dropEvent us a) = input_files a \<and>
      (fs \<noteq> [] \<longrightarrow>
         message_boxes (bundled_add_files fs a)
           = message_boxes a @ [''You can only add up to 20 files.''])) \<and>
   (length (input_files a) \<le> 20 \<longrightarrow>
      length (input_files (bundled_add_files fs a)) \<le> 20 \<and>
      length (input_files (bundled_dropEvent us a)) \<le> 20)"
  by (simp add: bundled_add_files_def bundled_add_loop_full bundled_add_loop_full_message
      bundled_dropEvent_full bundled_add_loop_cap bundled_dropEvent_cap)

text \<open>
  C5, witness: the set \<open>0.mp4\<close> .. \<open>19.mp4\<close>, to which \<open>new.mp4\<close> is added through the
  dialog and \<open>clip.mov\<close> is dropped.
\<close>

theorem bundled_cap_twenty_witness:
  "length (input_files bundled_full) = 20 \<and>
   input_files (bundled_add_files [''new.mp4''] bundled_full) = twenty_files \<and>
   input_files (bundled_dropEvent [''clip.mov''] bundled_full) = twenty_files \<and>
   message_boxes (bundled_add_files [''new.mp4''] bundled_full)
     = [''You can only add up to 20 files.''] \<and>
   length (input_files (bundled_add_files [''new.mp4''] bundled_full)) \<le> 20 \<and>
   length (input_files (bundled_dropEvent [''clip.mov''] bundled_full)) \<le> 20"
proof -
  have l: "length (input_files bundled_full) = 20"
    by (simp add: bundled_full_def twenty_files_length)
  have f: "input_files bundled_full = twenty_files" "message_boxes bundled_full = []"
    by (simp_all add: bundled_full_def)
  show ?thesis
    using bundled_cap_twenty [of bundled_full "[''new.mp4'']" "[''clip.mov'']"] l f
    by simp
qed

text \<open>
  C5, counterexample. The Windows variant has no cap: with 20 files in the set, adding
  \<open>new.mp4\<close> through the dialog, or dropping it, gives a set of 21.
\<close>

theorem windows_no_cap:
  "length (files app_full) = 20 \<and>
   length (files (add_files [''new.mp4''] app_full)) = 21 \<and>
   length (files (dropEvent [''new.mp4''] app_full)) = 21"
  by code_simp

subsection \<open>No path twice\<close>

lemma bundled_add_loop_distinct:
  "distinct (input_files a) \<Longrightarrow> distinct (input_files (bundled_add_loop fs a))"
  by (induction fs arbitrary: a) auto

lemma bundled_dropEvent_distinct:
  "distinct (input_files a) \<Longrightarrow> distinct (input_files (bundled_dropEvent us a))"
  by (induction us arbitrary: a) auto

lemma add_loop_distinct: "distinct (files a) \<Longrightarrow> distinct (files (add_loop fs a))"
  by (induction fs arbitrary: a) auto

lemma dropEvent_distinct: "distinct (files a) \<Longrightarrow> distinct (files (dropEvent us a))"
  by (induction us arbitrary: a) auto

lemma bundled_add_loop_present:
  "set fs \<subseteq> set (input_files a) \<Longrightarrow>
   input_files (bundled_add_loop fs a) = input_files a \<and>
   list_widget (bundled_add_loop fs a) = list_widget a"
  by (induction fs arbitrary: a) auto

lemma bundled_dropEvent_present:
  "set us \<subseteq> set (input_files a) \<Longrightarrow> bundled_dropEvent us a = a"
  by (induction us arbitrary: a) auto

lemma add_loop_present: "set fs \<subseteq> set (files a) \<Longrightarrow> add_loop fs a = a"
  by (induction fs arbitrary: a) auto

lemma dropEvent_present: "set us \<subseteq> set (files a) \<Longrightarrow> dropEvent us a = a"
  by (induction us arbitrary: a) auto

text \<open>
  C9. For every add operation of either variant (the explicit add with the dialog's
  files \<open>fs\<close>, the drop of \<open>fs\<close>): a file list without duplicates has none afterwards,
  and when every path of \<open>fs\<close> is already in the list, the list (and the list widget)
  is left as it was.
\<close>

theorem no_duplicate_paths:
  "(distinct (input_files b) \<longrightarrow>
      distinct (input_files (bundled_add_files fs b)) \<and>
      distinct (input_files (bundled_dropEvent fs b))) \<and>
   (distinct (files a) \<longrightarrow>
      distinct (files (add_files fs a)) \<and> distinct (files (dropEvent fs a))) \<and>
   (set fs \<subseteq> set (input_files b) \<longrightarrow>
      input_files (bundled_add_files fs b) = input_files b \<and>
      list_widget (bundled_add_files fs b) = list_widget b \<and>
      bundled_dropEvent fs b = b) \<and>
   (set fs \<subseteq> set (files a) \<longrightarrow> add_files fs a = a \<and> dropEvent fs a = a)"
  by (simp add: bundled_add_files_def add_files_def bundled_add_loop_distinct
      bundled_dropEvent_distinct add_loop_distinct dropEvent_distinct
      bundled_add_loop_present bundled_dropEvent_present add_loop_present dropEvent_present)

text \<open>
  C9, witness: the set \<open>0.mp4\<close> .. \<open>19.mp4\<close> of the Windows variant and a bundled set of
  two files, to which \<open>3.mp4\<close> and \<open>new.mp4\<close>, and again \<open>3.mp4\<close>, are added.
\<close>

theorem no_duplicate_paths_witness:
  "distinct (files app_full) \<and>
   distinct (files (add_files [''3.mp4'', ''new.mp4'', ''new.mp4''] app_full)) \<and>
   distinct (files (dropEvent [''3.mp4'', ''new.mp4'', ''new.mp4''] app_full)) \<and>
   distinct (input_files (bundled_full\<lparr>input_files := [''3.mp4'', ''4.mp4'']\<rparr>)) \<and>
   distinct (input_files (bundled_add_files [''3.mp4'', ''new.mp4'', ''new.mp4'']
       (bundled_full\<lparr>input_files := [''3.mp4'', ''4.mp4'']\<rparr>))) \<and>
   distinct (input_files (bundled_dropEvent [''3.mp4'', ''new.mp4'', ''new.mp4'']
       (bundled_full\<lparr>input_files := [''3.mp4'', ''4.mp4'']\<rparr>))) \<and>
   set [''3.mp4''] \<subseteq> set (files app_full) \<and>
   add_files [''3.mp4''] app_full = app_full \<and>
   dropEvent [''3.mp4''] app_full = app_full \<and>
   set [''3.mp4''] \<subseteq> set (input_files (bundled_full\<lparr>input_files := [''3.mp4'', ''4.mp4'']\<rparr>)) \<and>
   input_files (bundled_add_files [''3.mp4''] (bundled_full\<lparr>input_files := [''3.mp4'', ''4.mp4'']\<rparr>))
     = [''3.mp4'', ''4.mp4''] \<and>
   bundled_dropEvent [''3.mp4''] (bundled_full\<lparr>input_files := [''3.mp4'', ''4.mp4'']\<rparr>)
     = bundled_full\<lparr>input_files := [''3.mp4'', ''4.mp4'']\<rparr>"
proof -
  let ?b = "bundled_full\<lparr>input_files := [''3.mp4'', ''4.mp4'']\<rparr>"
  let ?fs = "[''3.mp4'', ''new.mp4'', ''new.mp4'']"
  have d: "distinct (files app_full)"
    by code_simp
  have m: "set [''3.mp4''] \<subseteq> set (files app_full)"
    by code_simp
  have db: "distinct (input_files ?b)" "set [''3.mp4''] \<subseteq> set (input_files ?b)"
    "input_files ?b = [''3.mp4'', ''4.mp4'']"
    by simp_all
  show ?thesis
    using no_duplicate_paths [of ?b ?fs app_full]
      no_duplicate_paths [of ?b "[''3.mp4'']" app_full] d m db
    by simp
qed

subsection \<open>Batches\<close>


lemma add_loop_frame:
  "queue (add_loop fs a) = queue a \<and> workers (add_loop fs a) = workers a \<and>
   running (add_loop fs a) = running a \<and> notices (add_loop fs a) = notices a"
  by (induction fs arbitrary: a) auto

lemma dropEvent_frame:
  "queue (dropEvent fs a) = queue a \<and> workers (dropEvent fs a) = workers a \<and>
   running (dropEvent fs a) = running a \<and> notices (dropEvent fs a) = notices a"
  by (induction fs arbitrary: a) auto

lemma remove_selected_frame:
  "queue (remove_selected fs a) = queue a \<and> workers (remove_selected fs a) = workers a \<and>
   running (remove_selected fs a) = running a \<and> notices (remove_selected fs a) = notices a"
  by (induction fs arbitrary: a) auto

lemma do_file_op_frame:
  "queue (do_file_op fo a) = queue a \<and> workers (do_file_op fo a) = workers a \<and>
   running (do_file_op fo a) = running a \<and> notices (do_file_op fo a) = notices a"
  by (cases fo) (simp_all add: add_files_def add_loop_frame dropEvent_frame remove_selected_frame)

lemma run_next_inv:
  assumes "k < length F" "map input_path (workers a) = W @ take (Suc k) F"
    "queue a = drop (Suc k) F" "running a = []" "notices a = N"
  shows "batch_inv F W N (Suc k) (run_next outp a)"
proof (cases "Suc k < length F")
  case True
  then have "drop (Suc k) F = F ! Suc k # drop (Suc (Suc k)) F"
    by (simp add: Cons_nth_drop_Suc)
  with assms True show ?thesis
    by (simp add: batch_inv_def run_next_def Let_def take_Suc_conv_app_nth)
next
  case False
  with assms have "Suc k = length F" by simp
  with assms show ?thesis
    by (simp add: batch_inv_def run_next_def)
qed

lemma start_queue_inv:
  assumes "files a \<noteq> []" "output_dir a \<noteq> []" "running a = []"
  shows "batch_inv (files a) (map input_path (workers a)) (notices a) 0 (start_queue outp a)"
proof -
  from assms(1) obtain f q where fq: "files a = f # q"
    by (cases "files a") auto
  with assms show ?thesis
    by (simp add: batch_inv_def start_queue_def run_next_def Let_def)
qed

lemma step_inv:
  assumes "batch_inv F W N k a" "step outp ev a = Some a'"
  shows "batch_inv F W (N @ errors [ev]) (k + terminals [ev]) a'"
proof (cases ev)
  case (File fo)
  with assms show ?thesis
    by (auto simp add: batch_inv_def do_file_op_frame)
next
  case (Slider v)
  with assms show ?thesis
    by (auto simp add: batch_inv_def)
next
  case (Signal sg)
  with assms have run: "running a \<noteq> []" and a': "a' = on_signal outp sg a" and nf: "sg \<noteq> Finished_ok"
    by (auto split: if_splits)
  from run assms(1) have k: "k < length F"
    by (auto simp add: batch_inv_def split: if_splits)
  with assms(1) have one: "length (running a) = 1"
    by (auto simp add: batch_inv_def dest: arg_cong [where f = length])
  then have tl: "tl (running a) = []"
    by (cases "running a") auto
  from assms(1) k have w: "map input_path (workers a) = W @ take (Suc k) F"
    and q: "queue a = drop (Suc k) F" and n: "notices a = N"
    by (auto simp add: batch_inv_def)
  show ?thesis
  proof (cases sg)
    case (Progress p)
    with Signal a' assms(1) show ?thesis
      by (auto simp add: batch_inv_def)
  next
    case (Done out)
    have "batch_inv F W N (Suc k) (run_next outp (a\<lparr>running := [], done_count := done_count a + 1\<rparr>))"
      by (rule run_next_inv) (use k w q n in simp_all)
    with Signal a' Done tl show ?thesis
      by (simp add: worker_done_def)
  next
    case Finished_ok
    with nf show ?thesis by simp
  next
    case (Error msg)
    have "batch_inv F W (N @ [Critical msg]) (Suc k)
            (run_next outp (a\<lparr>running := [], notices := notices a @ [Critical msg]\<rparr>))"
      by (rule run_next_inv) (use k w q n in simp_all)
    with Signal a' Error tl show ?thesis
      by (simp add: worker_error_def)
  qed
qed

lemma errors_append: "errors (es @ es') = errors es @ errors es'"
  by (induction es rule: errors.induct) auto

lemma terminals_append: "terminals (es @ es') = terminals es + terminals es'"
  by (induction es rule: terminals.induct) auto

lemma steps_inv:
  "batch_inv F W N k a \<Longrightarrow> steps outp es a = Some a' \<Longrightarrow>
   batch_inv F W (N @ errors es) (k + terminals es) a'"
proof (induction es arbitrary: a N k)
  case Nil
  then show ?case by simp
next
  case (Cons ev es)
  from Cons.prems(2) obtain b where b: "step outp ev a = Some b" and r: "steps outp es b = Some a'"
    by (auto split: option.splits)
  from step_inv [OF Cons.prems(1) b] have "batch_inv F W (N @ errors [ev]) (k + terminals [ev]) b" .
  from Cons.IH [OF this r] show ?case
    using errors_append [of "[ev]" es] terminals_append [of "[ev]" es]
    by (simp add: add.assoc)
qed

lemma steps_terminal_signals:
  "batch_inv F W N k a \<Longrightarrow> list_all terminal sgs \<Longrightarrow> Finished_ok \<notin> set sgs \<Longrightarrow>
   k + length sgs \<le> length F \<Longrightarrow> \<exists>a'. steps outp (map Signal sgs) a = Some a'"
proof (induction sgs arbitrary: a N k)
  case Nil
  then show ?case by simp
next
  case (Cons sg sgs)
  from Cons.prems have k: "k < length F" by simp
  with Cons.prems(1) have run: "running a \<noteq> []"
    by (auto simp add: batch_inv_def)
  with Cons.prems(3) have st: "step outp (Signal sg) a = Some (on_signal outp sg a)"
    by auto
  from Cons.prems(2) have t: "terminals [Signal sg] = 1" by simp
  from step_inv [OF Cons.prems(1) st]
  have "batch_inv F W (N @ errors [Signal sg]) (Suc k) (on_signal outp sg a)"
    using t by simp
  from Cons.IH [OF this] Cons.prems obtain a' where
    "steps outp (map Signal sgs) (on_signal outp sg a) = Some a'"
    by auto
  with st show ?case by simp
qed

lemma errors_no_Completed: "filter (\<lambda>n. n = Completed) (errors es) = []"
  by (induction es rule: errors.induct) auto

text \<open>
  C8. In the sequential (Windows) variant, for every window with files, an output
  directory and no running worker, and every sequence of events \<open>es\<close> that the window
  receives after the start (file operations, slider moves, signals of the running
  worker) of which \<open>k\<close> are terminal signals: \<open>k\<close> is at most the number of files of the
  batch; the workers created are those for the first \<open>k + 1\<close> files in order; the rest
  is queued; exactly the worker of file \<open>k\<close> is running while \<open>k\<close> is below the number
  of files and none afterwards, whether the terminal signals were successes or errors;
  the batch-complete notice has been shown once if \<open>k\<close> is the number of files and not
  at all before. Every sequence of terminal signals, successes or errors, that is no
  longer than the batch is accepted.
\<close>

theorem sequential_batch:
  assumes "files a \<noteq> []" and "output_dir a \<noteq> []" and "running a = []"
  shows
    "(steps outp es (start_queue outp a) = Some a' \<longrightarrow>
        terminals es \<le> length (files a) \<and>
        map input_path (workers a')
          = map input_path (workers a) @ take (Suc (terminals es)) (files a) \<and>
        queue a' = drop (Suc (terminals es)) (files a) \<and>
        map input_path (running a')
          = (if terminals es < length (files a) then [files a ! terminals es] else []) \<and>
        notices a'
          = notices a @ errors es @ (if terminals es = length (files a) then [Completed] else []) \<and>
        length (filter (\<lambda>n. n = Completed) (notices a'))
          = length (filter (\<lambda>n. n = Completed) (notices a))
            + (if terminals es = length (files a) then 1 else 0)) \<and>
     (list_all terminal sgs \<and> Finished_ok \<notin> set sgs \<and> length sgs \<le> length (files a) \<longrightarrow>
        (\<exists>a''. steps outp (map Signal sgs) (start_queue outp a) = Some a''))"
proof -
  note inv0 = start_queue_inv [OF assms, of outp]
  have first: "terminals es \<le> length (files a) \<and>
        map input_path (workers a')
          = map input_path (workers a) @ take (Suc (terminals es)) (files a) \<and>
        queue a' = drop (Suc (terminals es)) (files a) \<and>
        map input_path (running a')
          = (if terminals es < length (files a) then [files a ! terminals es] else []) \<and>
        notices a'
          = notices a @ errors es @ (if terminals es = length (files a) then [Completed] else []) \<and>
        length (filter (\<lambda>n. n = Completed) (notices a'))
          = length (filter (\<lambda>n. n = Completed) (notices a))
            + (if terminals es = length (files a) then 1 else 0)"
    if "steps outp es (start_queue outp a) = Some a'"
  proof -
    from steps_inv [OF inv0 that]
    have "batch_inv (files a) (map input_path (workers a)) (notices a @ errors es) (terminals es) a'"
      by simp
    then show ?thesis
      by (simp add: batch_inv_def errors_no_Completed)
  qed
  have second: "\<exists>a''. steps outp (map Signal sgs) (start_queue outp a) = Some a''"
    if "list_all terminal sgs \<and> Finished_ok \<notin> set sgs \<and> length sgs \<le> length (files a)"
    using steps_terminal_signals [OF inv0, of sgs outp] that by simp
  from first second show ?thesis
    by blast
qed

text \<open>
  C8, witness: three jobs of which the second fails. All three workers are created, in
  order; none is running at the end; the error is reported and the batch-complete
  notice comes once, last.
\<close>

theorem sequential_batch_witness:
  "files app_three \<noteq> [] \<and> output_dir app_three \<noteq> [] \<and> running app_three = [] \<and>
   list_all terminal [Done ''out/a_converted.mp4'', Error (Text ''FFmpeg failed (exit code 1)''),
                      Done ''out/c_converted.mp4''] \<and>
   (\<exists>a'. steps out_name
            (map Signal [Done ''out/a_converted.mp4'', Error (Text ''FFmpeg failed (exit code 1)''),
                         Done ''out/c_converted.mp4''])
            (start_queue out_name app_three) = Some a' \<and>
         map input_path (workers a') = [''a.mp4'', ''b.mp4'', ''c.mp4''] \<and>
         queue a' = [] \<and> running a' = [] \<and>
         notices a' = [Critical (Text ''FFmpeg failed (exit code 1)''), Completed])"
proof -
  let ?sgs = "[Done ''out/a_converted.mp4'', Error (Text ''FFmpeg failed (exit code 1)''),
               Done ''out/c_converted.mp4'']"
  have h: "files app_three \<noteq> []" "output_dir app_three \<noteq> []" "running app_three = []"
    by (simp_all add: app_three_def)
  have f: "files app_three = [''a.mp4'', ''b.mp4'', ''c.mp4'']" "workers app_three = []"
    "notices app_three = []"
    by (simp_all add: app_three_def)
  have t: "list_all terminal ?sgs" "Finished_ok \<notin> set ?sgs" "length ?sgs \<le> length (files app_three)"
    by (simp_all add: f)
  from sequential_batch [OF h, of out_name "[]" app_three ?sgs] t
  obtain a' where a': "steps out_name (map Signal ?sgs) (start_queue out_name app_three) = Some a'"
    by blast
  from sequential_batch [OF h, of out_name "map Signal ?sgs" a' "[]"] a'
  have "map input_path (workers a') = [''a.mp4'', ''b.mp4'', ''c.mp4''] \<and>
        queue a' = [] \<and> map input_path (running a') = [] \<and>
        notices a' = [Critical (Text ''FFmpeg failed (exit code 1)''), Completed]"
    by (simp add: f)
  with a' h t show ?thesis
    by auto
qed

lemma bundled_add_loop_started: "started (bundled_add_loop fs a) = started a"
  by (induction fs arbitrary: a) auto

lemma bundled_dropEvent_started: "started (bundled_dropEvent fs a) = started a"
  by (induction fs arbitrary: a) auto

lemma bundled_remove_selected_started: "started (bundled_remove_selected fs a) = started a"
  by (induction fs arbitrary: a) auto

lemma bundled_file_op_started: "started (bundled_file_op fo a) = started a"
  by (cases fo)
    (simp_all add: bundled_add_files_def bundled_add_loop_started bundled_dropEvent_started
      bundled_remove_selected_started)

lemma bundled_file_ops_started: "started (fold bundled_file_op ops a) = started a"
  by (induction ops arbitrary: a) (simp_all add: bundled_file_op_started)

text \<open>
  C10. The batch converts the file list as it was when the start operation ran. In the
  Windows variant, after any events received since the start (file operations
  included), the inputs of the workers created followed by the files still queued are
  the workers from before the start followed by that list, in its order; once as many
  terminal signals have come as the list had files, the workers created by the batch
  are exactly those of that list. In the bundled variant the start creates one worker
  per file of the list, in order, and no file operation afterwards changes the workers.
\<close>

theorem batch_snapshot:
  "(files a \<noteq> [] \<and> output_dir a \<noteq> [] \<and> running a = [] \<and>
    steps outp es (start_queue outp a) = Some a' \<longrightarrow>
      map input_path (workers a') @ queue a' = map input_path (workers a) @ files a \<and>
      (terminals es = length (files a) \<longrightarrow>
         map input_path (workers a') = map input_path (workers a) @ files a \<and> queue a' = [])) \<and>
   (input_files b \<noteq> [] \<and> output_folder b \<noteq> [] \<longrightarrow>
      map input_path (started (fold bundled_file_op ops (bundled_start_conversion outp b)))
        = map input_path (started b) @ input_files b)"
proof -
  have win: "map input_path (workers a') @ queue a' = map input_path (workers a) @ files a \<and>
      (terminals es = length (files a) \<longrightarrow>
         map input_path (workers a') = map input_path (workers a) @ files a \<and> queue a' = [])"
    if h: "files a \<noteq> []" "output_dir a \<noteq> []" "running a = []"
      and s: "steps outp es (start_queue outp a) = Some a'"
  proof -
    from steps_inv [OF start_queue_inv [OF h, of outp] s]
    have "batch_inv (files a) (map input_path (workers a)) (notices a @ errors es) (terminals es) a'"
      by simp
    then show ?thesis
      by (simp add: batch_inv_def)
  qed
  have bun: "map input_path (started (fold bundled_file_op ops (bundled_start_conversion outp b)))
        = map input_path (started b) @ input_files b"
    if "input_files b \<noteq> []" "output_folder b \<noteq> []"
    using that
    by (simp add: bundled_file_ops_started bundled_start_conversion_def comp_def)
  from win bun show ?thesis
    by blast
qed

text \<open>
  C10, witness: a batch of three files during which \<open>b.mp4\<close> is removed from the list
  and \<open>z.mp4\<close> is dropped on the window, and a bundled batch of two files after whose
  start one file is removed and another added.
\<close>

theorem batch_snapshot_witness:
  "files app_three \<noteq> [] \<and> output_dir app_three \<noteq> [] \<and> running app_three = [] \<and>
   (\<exists>a'. steps out_name
            [File (Remove_selected [''b.mp4'']), Signal (Done ''out/a_converted.mp4''),
             File (Drop [''z.mp4'']), Signal (Done ''out/b_converted.mp4''),
             Signal (Done ''out/c_converted.mp4'')]
            (start_queue out_name app_three) = Some a' \<and>
         files a' = [''a.mp4'', ''c.mp4'', ''z.mp4''] \<and>
         map input_path (workers a') = [''a.mp4'', ''b.mp4'', ''c.mp4''] \<and> queue a' = []) \<and>
   input_files bundled_two \<noteq> [] \<and> output_folder bundled_two \<noteq> [] \<and>
   input_files (fold bundled_file_op [Remove_selected [''a.mp4''], Add_files [''z.mp4'']]
       (bundled_start_conversion out_name bundled_two)) = [''b.mp4'', ''z.mp4''] \<and>
   map input_path
     (started (fold bundled_file_op [Remove_selected [''a.mp4''], Add_files [''z.mp4'']]
        (bundled_start_conversion out_name bundled_two))) = [''a.mp4'', ''b.mp4'']"
proof -
  let ?es = "[File (Remove_selected [''b.mp4'']), Signal (Done ''out/a_converted.mp4''),
             File (Drop [''z.mp4'']), Signal (Done ''out/b_converted.mp4''),
             Signal (Done ''out/c_converted.mp4'')]"
  let ?ops = "[Remove_selected [''a.mp4''], Add_files [''z.mp4'']]"
  have h: "files app_three \<noteq> []" "output_dir app_three \<noteq> []" "running app_three = []"
    by (simp_all add: app_three_def)
  have f: "files app_three = [''a.mp4'', ''b.mp4'', ''c.mp4'']" "workers app_three = []"
    by (simp_all add: app_three_def)
  have hb: "input_files bundled_two \<noteq> []" "output_folder bundled_two \<noteq> []"
    by (simp_all add: bundled_two_def)
  have fb: "input_files bundled_two = [''a.mp4'', ''b.mp4'']" "started bundled_two = []"
    by (simp_all add: bundled_two_def)
  have "steps out_name ?es (start_queue out_name app_three) \<noteq> None"
    by code_simp
  then obtain a' where a': "steps out_name ?es (start_queue out_name app_three) = Some a'"
    by blast
  have "files (the (steps out_name ?es (start_queue out_name app_three)))
          = [''a.mp4'', ''c.mp4'', ''z.mp4'']"
    by code_simp
  with a' have fa: "files a' = [''a.mp4'', ''c.mp4'', ''z.mp4'']"
    by simp
  have t: "terminals ?es = length (files app_three)"
    by (simp add: f)
  have ib: "input_files (fold bundled_file_op ?ops (bundled_start_conversion out_name bundled_two))
              = [''b.mp4'', ''z.mp4'']"
    by code_simp
  from batch_snapshot [of app_three out_name ?es a' bundled_two ?ops] h a' t hb
  have "map input_path (workers a') = [''a.mp4'', ''b.mp4'', ''c.mp4''] \<and> queue a' = [] \<and>
        map input_path (started (fold bundled_file_op ?ops (bundled_start_conversion out_name bundled_two)))
          = [''a.mp4'', ''b.mp4'']"
    by (simp add: f fb)
  then have w: "map input_path (workers a') = [''a.mp4'', ''b.mp4'', ''c.mp4'']" "queue a' = []"
    and sb: "map input_path (started (fold bundled_file_op ?ops
        (bundled_start_conversion out_name bundled_two))) = [''a.mp4'', ''b.mp4'']"
    by simp_all
  from a' fa w have "\<exists>a'. steps out_name ?es (start_queue out_name app_three) = Some a' \<and>
         files a' = [''a.mp4'', ''c.mp4'', ''z.mp4''] \<and>
         map input_path (workers a') = [''a.mp4'', ''b.mp4'', ''c.mp4''] \<and> queue a' = []"
    by (intro exI [of _ a']) simp
  with h hb ib sb show ?thesis
    by (intro conjI)
qed

subsection \<open>The preview\<close>


text \<open>
  C4 (as amended). For every platform, preview request and disk, cached picture or
  not: when the path resolves, the encoder is run exactly once more, with the command
  whose last word is the file name computed from the resolved path and the saturation
  to three decimals; the request gives that file name when the encoder returns and the
  file then exists with more than 500 bytes, and the empty string otherwise.
\<close>

theorem preview_regenerates:
  "resolve_posix P (video_path pv) = Some r \<longrightarrow>
     invocations (snd (Previewer_run P pv d))
       = invocations d @ [preview_cmd P pv (outjpg P r (preview_saturation pv))] \<and>
     last (preview_cmd P pv (outjpg P r (preview_saturation pv)))
       = outjpg P r (preview_saturation pv) \<and>
     fst (Previewer_run P pv d)
       = (let out = outjpg P r (preview_saturation pv);
              (raised, sizes') = run_ffmpeg P (preview_cmd P pv out) (sizes d)
          in if \<not> raised \<and> (\<exists>n. sizes' out = Some n \<and> n > 500) then out else '''')"
  by (auto simp add: Previewer_run_def Let_def preview_cmd_def split: prod.splits option.splits)


text \<open>
  C4, witness: the first request for \<open>/videos/a.mp4\<close> at saturation 1.0 on an empty
  disk.
\<close>

theorem preview_regenerates_witness:
  "resolve_posix platform_one
       (video_path \<lparr>video_path = ''/videos/a.mp4'', preview_saturation = 100\<rparr>)
     = Some ''/videos/a.mp4'' \<and>
   invocations (snd (Previewer_run platform_one
       \<lparr>video_path = ''/videos/a.mp4'', preview_saturation = 100\<rparr>
       \<lparr>sizes = Map.empty, invocations = []\<rparr>))
     = [preview_cmd platform_one \<lparr>video_path = ''/videos/a.mp4'', preview_saturation = 100\<rparr>
          (outjpg platform_one ''/videos/a.mp4'' 100)] \<and>
   last (preview_cmd platform_one \<lparr>video_path = ''/videos/a.mp4'', preview_saturation = 100\<rparr>
          (outjpg platform_one ''/videos/a.mp4'' 100))
     = outjpg platform_one ''/videos/a.mp4'' 100 \<and>
   fst (Previewer_run platform_one
       \<lparr>video_path = ''/videos/a.mp4'', preview_saturation = 100\<rparr>
       \<lparr>sizes = Map.empty, invocations = []\<rparr>)
     = ''/tmp/preview_294ce4e15b2436c9654e3349f9b4e99d.jpg''"
proof -
  let ?pv = "\<lparr>video_path = ''/videos/a.mp4'', preview_saturation = 100\<rparr>"
  let ?d = "\<lparr>sizes = Map.empty, invocations = []\<rparr>"
  have r: "resolve_posix platform_one (video_path ?pv) = Some ''/videos/a.mp4''"
    by (simp add: platform_one_def)
  have f: "fst (Previewer_run platform_one ?pv ?d)
             = ''/tmp/preview_294ce4e15b2436c9654e3349f9b4e99d.jpg''"
    by code_simp
  from preview_regenerates [of platform_one ?pv "''/videos/a.mp4''" ?d] r
  have "invocations (snd (Previewer_run platform_one ?pv ?d))
          = [preview_cmd platform_one ?pv (outjpg platform_one ''/videos/a.mp4'' 100)] \<and>
        last (preview_cmd platform_one ?pv (outjpg platform_one ''/videos/a.mp4'' 100))
          = outjpg platform_one ''/videos/a.mp4'' 100"
    by simp
  with r f show ?thesis
    by (intro conjI) simp_all
qed

text \<open>
  C4, counterexample. The picture of \<open>/videos/a.mp4\<close> at saturation 1.0 is on the disk
  with 1000 bytes and no encoder has run; a request for the same pair runs the encoder.
\<close>

theorem preview_cached_runs_encoder:
  "sizes disk_cached (outjpg platform_one ''/videos/a.mp4'' 100) = Some 1000 \<and>
   invocations disk_cached = [] \<and>
   invocations (snd (Previewer_run platform_one
       \<lparr>video_path = ''/videos/a.mp4'', preview_saturation = 100\<rparr> disk_cached))
     = [[''ffmpeg.exe'', ''-y'', ''-ss'', ''00:00:01'', ''-i'', ''/videos/a.mp4'',
         ''-frames:v'', ''1'', ''-vf'', ''eq=saturation=1.0'',
         ''/tmp/preview_294ce4e15b2436c9654e3349f9b4e99d.jpg'']]"
  by code_simp

subsection \<open>Probing, progress and the end of a run\<close>



































text \<open>
  C2, at the failing input. The prober prints \<open>N/A\<close> for the duration: the bundled run
  ends with the error signal of the \<open>ValueError\<close> that \<open>float\<close> raised and builds no
  command, whatever the encoder would have done; the Windows variant reads the same
  output as the duration 0.0.
\<close>

theorem bundled_duration_not_a_number:
  "bundled_run ''ffmpeg''
       \<lparr>input_path = ''a.mp4'', output_path = ''a_converted.mp4'', saturation = 100\<rparr>
       \<lparr>duration_out = ''N/A'' @ [CHR 0x0A], bitrate_out = ''800000'' @ [CHR 0x0A],
        stderr_lines = [''frame=1 time=00:00:05.00''], returncode = 0\<rparr>
     = (None, [Error (Str_of ValueError)]) \<and>
   windows_duration (''N/A'' @ [CHR 0x0A]) = Finite 0"
  by code_simp

text \<open>
  C7 (as amended). For every run whose progress loop raised no exception (and, in the
  bundled variant, whose duration was read without one): on exit status 0 the last
  signal is the success signal in both variants, the Windows variant emitting the
  percent 100 right before it whatever lines were seen, the bundled variant emitting
  only the percents of the lines; on any other exit status the last signal is an error
  whose text ends with the exit status in decimal (followed by the closing bracket in
  the Windows variant).
\<close>

theorem run_exit_status:
  "(progress_loop windows_pct (windows_duration (duration_out io)) (- 1) (stderr_lines io)
      = (em, None) \<longrightarrow>
      (returncode io = 0 \<longrightarrow>
         snd (windows_run ffmpeg w io) = map Progress em @ [Progress 100, Done (output_path w)]) \<and>
      (returncode io \<noteq> 0 \<longrightarrow>
         snd (windows_run ffmpeg w io)
           = map Progress em @
             [Error (Text (''FFmpeg failed (exit code '' @ show_int (returncode io) @ '')''))])) \<and>
   (bundled_duration (duration_out io) = Inr d \<and>
    progress_loop bundled_pct d (- 1) (stderr_lines io) = (em', None) \<longrightarrow>
      (returncode io = 0 \<longrightarrow>
         snd (bundled_run ffmpeg w io) = map Progress em' @ [Finished_ok]) \<and>
      (returncode io \<noteq> 0 \<longrightarrow>
         snd (bundled_run ffmpeg w io)
           = map Progress em' @ [Error (Text (''ffmpeg rc='' @ show_int (returncode io)))]))"
  by (simp add: windows_run_def bundled_run_def Let_def)

text \<open>
  C7, witness: a Windows run and a bundled run over the duration 20.0 and one line at
  10 s, once with exit status 0 and once with exit status 1.
\<close>

theorem run_exit_status_witness:
  "progress_loop windows_pct (windows_duration ''20.000000'') (- 1) [''frame=1 time=00:00:10.00'']
     = ([50], None) \<and>
   snd (windows_run ''ffmpeg.exe''
       \<lparr>input_path = ''a.mp4'', output_path = ''out/a_converted.mp4'', saturation = 100\<rparr>
       \<lparr>duration_out = ''20.000000'', bitrate_out = ''800000'',
        stderr_lines = [''frame=1 time=00:00:10.00''], returncode = 0\<rparr>)
     = [Progress 50, Progress 100, Done ''out/a_converted.mp4''] \<and>
   snd (windows_run ''ffmpeg.exe''
       \<lparr>input_path = ''a.mp4'', output_path = ''out/a_converted.mp4'', saturation = 100\<rparr>
       \<lparr>duration_out = ''20.000000'', bitrate_out = ''800000'',
        stderr_lines = [''frame=1 time=00:00:10.00''], returncode = 1\<rparr>)
     = [Progress 50, Error (Text ''FFmpeg failed (exit code 1)'')] \<and>
   bundled_duration ''20.000000'' = Inr (Finite 20) \<and>
   progress_loop bundled_pct (Finite 20) (- 1) [''frame=1 time=00:00:10.00''] = ([50], None) \<and>
   snd (bundled_run ''ffmpeg''
       \<lparr>input_path = ''a.mp4'', output_path = ''out/a_converted.mp4'', saturation = 100\<rparr>
       \<lparr>duration_out = ''20.000000'', bitrate_out = ''800000'',
        stderr_lines = [''frame=1 time=00:00:10.00''], returncode = 1\<rparr>)
     = [Progress 50, Error (Text ''ffmpeg rc=1'')]"
proof -
  let ?w = "\<lparr>input_path = ''a.mp4'', output_path = ''out/a_converted.mp4'', saturation = 100\<rparr>"
  let ?io0 = "\<lparr>duration_out = ''20.000000'', bitrate_out = ''800000'',
        stderr_lines = [''frame=1 time=00:00:10.00''], returncode = 0\<rparr>"
  let ?io1 = "\<lparr>duration_out = ''20.000000'', bitrate_out = ''800000'',
        stderr_lines = [''frame=1 time=00:00:10.00''], returncode = 1\<rparr>"
  have wd: "windows_duration ''20.000000'' = Finite 20"
    by code_simp
  have bd: "bundled_duration ''20.000000'' = Inr (Finite 20)"
    by code_simp
  have wl: "progress_loop windows_pct (Finite 20) (- 1) [''frame=1 time=00:00:10.00''] = ([50], None)"
    by code_simp
  have bl: "progress_loop bundled_pct (Finite 20) (- 1) [''frame=1 time=00:00:10.00''] = ([50], None)"
    by code_simp
  have sh: "show_int 1 = ''1''"
    by code_simp
  from run_exit_status [where io = "?io0" and em = "[50]" and ffmpeg = "''ffmpeg.exe''" and w = "?w"
      and d = "Finite 20" and em' = "[50]"] wd wl
  have a: "snd (windows_run ''ffmpeg.exe'' ?w ?io0)
             = [Progress 50, Progress 100, Done ''out/a_converted.mp4'']"
    by simp
  from run_exit_status [where io = "?io1" and em = "[50]" and ffmpeg = "''ffmpeg.exe''" and w = "?w"
      and d = "Finite 20" and em' = "[50]"] wd wl sh
  have b: "snd (windows_run ''ffmpeg.exe'' ?w ?io1)
             = [Progress 50, Error (Text ''FFmpeg failed (exit code 1)'')]"
    by simp
  from run_exit_status [where io = "?io1" and em = "[50]" and ffmpeg = "''ffmpeg''" and w = "?w"
      and d = "Finite 20" and em' = "[50]"] bd bl sh
  have c: "snd (bundled_run ''ffmpeg'' ?w ?io1) = [Progress 50, Error (Text ''ffmpeg rc=1'')]"
    by simp
  from wd wl a b bd bl c show ?thesis
    by simp
qed

text \<open>
  C7, counterexample. A bundled run over the duration 20.0 whose encoder prints one
  line at 10 s and exits with status 0 emits the percent 50 and the success signal: no
  percent 100 comes before the success.
\<close>

theorem bundled_no_final_percent:
  "snd (bundled_run ''ffmpeg''
       \<lparr>input_path = ''a.mp4'', output_path = ''out/a_converted.mp4'', saturation = 100\<rparr>
       \<lparr>duration_out = ''20.000000'', bitrate_out = ''800000'',
        stderr_lines = [''frame=1 time=00:00:10.00''], returncode = 0\<rparr>)
     = [Progress 50, Finished_ok]"
  by code_simp

end
